theory Spec2Isabelle
  imports Main
begin

section \<open>JavaScript values and the library calls the platform makes\<close>

text \<open>
  The plugin (src/index.ts) is a homebridge dynamic platform. It reads a JSON document
  from a remote registry, compares its keys with the accessories it already holds, and
  registers or unregisters accessories with the host. A JavaScript string is modelled as
  a \<open>string\<close> whose characters are the code units 0 to 255; the responses of the
  registry are values of \<open>jsval\<close>.
\<close>

datatype jsval =
    JUndefined
  | JNull
  | JBool bool
  | JNum int
  | JStr string
  | JArr "jsval list"
  | JObj "(string \<times> jsval) list"

text \<open>
  \<open>JObj\<close> lists the own enumerable properties of an object in enumeration order.
  \<open>JNum\<close> carries the integer numbers only; no function below looks at the number.
\<close>

text \<open>
  The exceptions that can leave a handler: a \<open>TypeError\<close> of the language or of
  \<open>hap.uuid.generate\<close>, the failed assertion of the \<open>Accessory\<close> constructor, and the
  error of the host for an identifier it already holds.
\<close>

datatype error = TypeError | AssertionError | Error_same_UUID

text \<open>
  \<open>String.prototype.trimRight\<close> takes no parameter: it removes the trailing white space
  and line terminators of the receiver and ignores every argument of the call. Among
  the code units up to 255 these are TAB, LF, VT, FF, CR, SPACE and NBSP.
\<close>

definition isWhiteSpace :: "char \<Rightarrow> bool" where
  "isWhiteSpace c \<longleftrightarrow>
     c \<in> set [CHR 0x09, CHR 0x0A, CHR 0x0B, CHR 0x0C, CHR 0x0D, CHR 0x20, CHR 0xA0]"

definition trimRight :: "string \<Rightarrow> string \<Rightarrow> string" where
  "trimRight s ignored = rev (dropWhile isWhiteSpace (rev s))"

text \<open>\<open>Array.prototype.join\<close> on an array of strings.\<close>

fun join :: "string \<Rightarrow> string list \<Rightarrow> string" where
  "join sep [] = []"
| "join sep [x] = x"
| "join sep (x # y # ys) = x @ sep @ join sep (y # ys)"

text \<open>
  A property read \<open>v.k\<close> for a name \<open>k\<close> that is neither an index, nor \<open>length\<close>, nor
  defined by a prototype (the source reads \<open>.data\<close> and \<open>.status\<close>): it throws on
  \<open>undefined\<close> and \<open>null\<close>, finds an own property of an object, and is \<open>undefined\<close>
  everywhere else.
\<close>

fun member :: "jsval \<Rightarrow> string \<Rightarrow> error + jsval" where
  "member JUndefined k = Inl TypeError"
| "member JNull k = Inl TypeError"
| "member (JObj kvs) k = Inr (case map_of kvs k of Some v \<Rightarrow> v | None \<Rightarrow> JUndefined)"
| "member v k = Inr JUndefined"

text \<open>The decimal spelling of an array index, as \<open>String(i)\<close> gives it.\<close>

definition digit :: "nat \<Rightarrow> char" where
  "digit d = char_of (of_char (CHR ''0'') + d)"

function index_key :: "nat \<Rightarrow> string" where
  "index_key n = (if n < 10 then [digit n] else index_key (n div 10) @ [digit (n mod 10)])"
  by pat_completeness auto
termination
  by (relation "measure id") auto

text \<open>
  The own enumerable string-keyed properties of a value, in enumeration order: those of
  an object, the elements of an array under their indices, the characters of a string
  under their indices, and none for \<open>undefined\<close>, \<open>null\<close>, booleans and numbers.
  \<open>_.keys\<close> of lodash returns their names, and \<open>v[k]\<close> at such a name reads the value.
\<close>

fun own_entries :: "jsval \<Rightarrow> (string \<times> jsval) list" where
  "own_entries (JObj kvs) = kvs"
| "own_entries (JArr xs) = zip (map index_key [0..<length xs]) xs"
| "own_entries (JStr s) = zip (map index_key [0..<length s]) (map (\<lambda>c. JStr [c]) s)"
| "own_entries v = []"

definition lodash_keys :: "jsval \<Rightarrow> string list" where
  "lodash_keys v = map fst (own_entries v)"

definition element :: "jsval \<Rightarrow> string \<Rightarrow> jsval" where
  "element v k = (case map_of (own_entries v) k of Some x \<Rightarrow> x | None \<Rightarrow> JUndefined)"

text \<open>
  \<open>_.difference(xs, ys)\<close>: the values of \<open>xs\<close> that are not in \<open>ys\<close>, in the order of
  \<open>xs\<close> and with its repetitions.
\<close>

definition lodash_difference :: "'a list \<Rightarrow> 'a list \<Rightarrow> 'a list" where
  "lodash_difference xs ys = filter (\<lambda>x. x \<notin> set ys) xs"

text \<open>
  The condition of \<open>if (switchesToRemove)\<close> converts an array to a boolean. Every object
  converts to \<open>true\<close>, the empty array too.
\<close>

definition truthy :: "'a list \<Rightarrow> bool" where
  "truthy xs = True"

section \<open>The platform\<close>

text \<open>
  A platform accessory, with the two fields the plugin keeps in its \<open>context\<close>. The
  identifier comes from \<open>hap.uuid.generate\<close>, a function of the host library that is a
  parameter \<open>gen\<close> of the model. Every accessory carries the \<open>Switch\<close> service, as the
  ones \<open>addAccessory\<close> builds do; its \<open>On\<close> characteristic is the subject of the
  section on the switch.
\<close>

type_synonym uuid = string

record accessory =
  displayName :: string
  UUID :: uuid
  action :: string
  actionUrl :: string

text \<open>
  What the platform does to the outside, in the order it does it: lines written to the
  log, and accessories handed to \<open>registerPlatformAccessories\<close> and
  \<open>unregisterPlatformAccessories\<close>.
\<close>

datatype event =
    Log_info string
  | Log_info_value string jsval
  | Log_error string
  | Register "accessory list"
  | Unregister "accessory list"

text \<open>
  \<open>Log_info_value text v\<close> is a line that starts with \<open>text\<close> and ends with what the
  logger prints for \<open>v\<close>, a value that is not a string; the printed form is not spelled
  out. For a string the line is \<open>text\<close> followed by the string.
\<close>

fun log_info_with :: "string \<Rightarrow> jsval \<Rightarrow> event" where
  "log_info_with text (JStr s) = Log_info (text @ s)"
| "log_info_with text v = Log_info_value text v"

text \<open>
  The platform object: its two fields, the trace, and the part of the host behind
  \<open>this.api\<close> that the platform depends on, the identifiers of the accessories the
  host holds on the bridge.
\<close>

record platform =
  configURL :: string
  accessories :: "accessory list"
  events :: "event list"
  bridged :: "uuid list"

definition emit :: "event \<Rightarrow> platform \<Rightarrow> platform" where
  "emit e st = st\<lparr>events := events st @ [e]\<rparr>"

text \<open>The constructor, up to the installation of the launch handler.\<close>

definition WebRFPlatform :: "string \<Rightarrow> platform" where
  "WebRFPlatform url =
     emit (Log_info ''Starting WebRF Plugin'')
       \<lparr>configURL = trimRight url ''/'' @ ''/api/v1/'', accessories = [], events = [],
         bridged = []\<rparr>"

definition configureAccessory :: "accessory \<Rightarrow> platform \<Rightarrow> platform" where
  "configureAccessory acc st =
     (let st1 = emit (Log_info (''Configuring accessory '' @ displayName acc)) st
      in st1\<lparr>accessories := accessories st1 @ [acc]\<rparr>)"

text \<open>
  The two calls to the host. \<open>registerPlatformAccessories\<close> adds the accessories to the
  bridge one by one and raises at the first whose identifier the bridge already holds.
  \<open>unregisterPlatformAccessories\<close> takes the identifiers of the accessories off the
  bridge. How the host ends that call for an accessory the bridge does not hold is left
  out: the model records the call and goes on.
\<close>

fun addBridged :: "uuid list \<Rightarrow> accessory list \<Rightarrow> error option \<times> uuid list" where
  "addBridged held [] = (None, held)"
| "addBridged held (acc # accs) =
     (if UUID acc \<in> set held then (Some Error_same_UUID, held)
      else addBridged (held @ [UUID acc]) accs)"

definition registerPlatformAccessories ::
  "accessory list \<Rightarrow> platform \<Rightarrow> error option \<times> platform" where
  "registerPlatformAccessories accs st =
     (let st1 = emit (Register accs) st
      in (fst (addBridged (bridged st1) accs),
          st1\<lparr>bridged := snd (addBridged (bridged st1) accs)\<rparr>))"

definition unregisterPlatformAccessories :: "accessory list \<Rightarrow> platform \<Rightarrow> platform" where
  "unregisterPlatformAccessories accs st =
     (let st1 = emit (Unregister accs) st
      in st1\<lparr>bridged := filter (\<lambda>u. u \<notin> set (map UUID accs)) (bridged st1)\<rparr>)"

text \<open>
  \<open>addAccessory(name, action)\<close>. The parameter is declared a string, but the caller passes
  a value of the response unchecked, so the model takes any value. The first line is
  logged for every value. \<open>hap.uuid.generate\<close> raises a \<open>TypeError\<close> for a value that is
  not a string, and \<open>new Accessory\<close> fails its assertion for the empty name. The
  accessory is in the array, through \<open>configureAccessory\<close>, before it is handed to the
  host, and stays there when the host refuses it.
\<close>

definition addAccessory ::
  "(string \<Rightarrow> uuid) \<Rightarrow> jsval \<Rightarrow> string \<Rightarrow> platform \<Rightarrow> error option \<times> platform" where
  "addAccessory gen name act st =
     (let st1 = emit (log_info_with ''Adding new accessory with name '' name) st
      in case name of
           JStr n \<Rightarrow>
             if n = [] then (Some AssertionError, st1)
             else (let acc = \<lparr>displayName = n, UUID = gen n, action = act,
                               actionUrl = configURL st1 @ act\<rparr>;
                       st2 = configureAccessory acc st1
                   in registerPlatformAccessories [acc] st2)
         | _ \<Rightarrow> (Some TypeError, st1))"

definition removeAccessory :: "string \<Rightarrow> platform \<Rightarrow> platform" where
  "removeAccessory act st =
     (let st1 = emit (Log_info (''Removing accessory with action '' @ act)) st;
          accessoryToRemove = filter (\<lambda>a. action a = act) (accessories st1)
      in if length accessoryToRemove = 0
         then emit (Log_error (''Unable to remove accessory '' @ act @ ''! Does not exist.'')) st1
         else unregisterPlatformAccessories accessoryToRemove st1)"

definition removeAccessories :: "platform \<Rightarrow> platform" where
  "removeAccessories st =
     (let st1 = emit (Log_info ''Removing all accessories'') st;
          st2 = unregisterPlatformAccessories (accessories st1) st1
      in st2\<lparr>accessories := []\<rparr>)"

section \<open>The reconciliation pass\<close>

text \<open>
  The handler of \<open>DID_FINISH_LAUNCHING\<close>. What \<open>await axios.get\<close> gives it is an input
  of the model: the call is rejected, or it yields a response whose \<open>data\<close> field is the
  parsed body.
\<close>

datatype settled = Rejected | Response jsval

definition switchesToRemove :: "string list \<Rightarrow> string list \<Rightarrow> string list" where
  "switchesToRemove registeredSwitches switchActions =
     lodash_difference registeredSwitches switchActions"

definition switchesToAdd :: "string list \<Rightarrow> string list \<Rightarrow> string list" where
  "switchesToAdd registeredSwitches switchActions =
     lodash_difference switchActions registeredSwitches"

text \<open>
  \<open>switchesToAdd.forEach(action => this.addAccessory(switchData[action], action))\<close>:
  an exception of \<open>addAccessory\<close> ends the loop and leaves the handler.
\<close>

fun addEach ::
  "(string \<Rightarrow> uuid) \<Rightarrow> jsval \<Rightarrow> string list \<Rightarrow> platform \<Rightarrow> error option \<times> platform" where
  "addEach gen switchData [] st = (None, st)"
| "addEach gen switchData (act # acts) st =
     (case addAccessory gen (element switchData act) act st of
        (None, st1) \<Rightarrow> addEach gen switchData acts st1
      | (Some e, st1) \<Rightarrow> (Some e, st1))"

text \<open>
  The result pairs the exception that left the handler, if any, with the platform as the
  handler left it.
\<close>

definition didFinishLaunching ::
  "(string \<Rightarrow> uuid) \<Rightarrow> settled \<Rightarrow> platform \<Rightarrow> error option \<times> platform" where
  "didFinishLaunching gen switches st =
     (let st1 = emit (Log_info ''Cache restored.'') st;
          st2 = emit (Log_info ''Loading switch data'') st1
      in case switches of
           Rejected \<Rightarrow> (None, emit (Log_error ''Failed to access server!'') st2)
         | Response body \<Rightarrow>
             (let registeredSwitches = map action (accessories st2)
              in case member body ''data'' of
                   Inl e \<Rightarrow> (Some e, st2)
                 | Inr switchData \<Rightarrow>
                     (let switchActions = lodash_keys switchData;
                          toRemove = switchesToRemove registeredSwitches switchActions;
                          toAdd = switchesToAdd registeredSwitches switchActions;
                          st3 = (if truthy toRemove
                                 then fold removeAccessory toRemove
                                        (emit (Log_info (''Removing switches: '' @ join '', '' toRemove)) st2)
                                 else emit (Log_info ''No switches to remove'') st2)
                      in if truthy toAdd
                         then addEach gen switchData toAdd
                                (emit (Log_info (''Adding switches: '' @ join '', '' toAdd)) st3)
                         else (None, emit (Log_info ''No switches to add'') st3))))"

section \<open>The switch of one accessory\<close>

text \<open>
  The \<open>SET\<close> handler that \<open>configureAccessory\<close> attaches to the \<open>On\<close> characteristic.
  It runs in two parts: up to its \<open>await\<close>, and from there once the request is settled.
  The timer it starts runs a third piece of code. The state they act on is the value of
  the characteristic, the due times (in ms) of the timers that are pending, the URLs
  posted to and the log. The host stores the requested value when the handler calls
  \<open>callback()\<close>.
\<close>

record switch =
  isOn :: bool
  timers :: "nat list"
  posts :: "string list"
  logged :: "event list"

definition write_log :: "event \<Rightarrow> switch \<Rightarrow> switch" where
  "write_log e s = s\<lparr>logged := logged s @ [e]\<rparr>"

definition onSet :: "accessory \<Rightarrow> nat \<Rightarrow> bool \<Rightarrow> switch \<Rightarrow> switch" where
  "onSet acc now v s =
     (let s1 = write_log (Log_info (displayName acc @ '' was triggered.'')) s;
          s2 = s1\<lparr>isOn := v\<rparr>;
          s3 = s2\<lparr>timers := timers s2 @ [now + 3000]\<rparr>
      in s3\<lparr>posts := posts s3 @ [actionUrl acc]\<rparr>)"

definition onTimeout :: "accessory \<Rightarrow> switch \<Rightarrow> switch" where
  "onTimeout acc s =
     (let s1 = write_log (Log_info (displayName acc @ '': updating button value to false.'')) s
      in s1\<lparr>isOn := False, timers := tl (timers s1)\<rparr>)"

definition onSettled :: "accessory \<Rightarrow> settled \<Rightarrow> switch \<Rightarrow> error option \<times> switch" where
  "onSettled acc response s =
     (case response of
        Rejected \<Rightarrow>
          (None, write_log (Log_error (''Failed to trigger request for '' @ displayName acc)) s)
      | Response body \<Rightarrow>
          (case member body ''status'' of
             Inl e \<Rightarrow> (Some e, s)
           | Inr status \<Rightarrow>
               if status = JStr ''ok''
               then (None, write_log (Log_info (displayName acc @ '' triggered successfully!'')) s)
               else (None, write_log (Log_error (''Failed to trigger: '' @ displayName acc
                                        @ ''! Please check server!'')) s)))"

section \<open>What a pass did\<close>

text \<open>
  The events a run added to the trace, the accessories it handed to the host for
  registration and for unregistration, and their action keys.
\<close>

definition emitted :: "platform \<Rightarrow> platform \<Rightarrow> event list" where
  "emitted st st' = drop (length (events st)) (events st')"

fun registrations :: "event list \<Rightarrow> accessory list list" where
  "registrations [] = []"
| "registrations (Register accs # es) = accs # registrations es"
| "registrations (e # es) = registrations es"

fun unregistrations :: "event list \<Rightarrow> accessory list list" where
  "unregistrations [] = []"
| "unregistrations (Unregister accs # es) = accs # unregistrations es"
| "unregistrations (e # es) = unregistrations es"

definition created :: "event list \<Rightarrow> string list" where
  "created es = map action (concat (registrations es))"

definition destroyed :: "event list \<Rightarrow> string list" where
  "destroyed es = map action (concat (unregistrations es))"

text \<open>
  The two events \<open>removeAccessory\<close> adds for a key, the accessory \<open>addAccessory\<close>
  builds for a name, the three events it adds when it reaches the host, and the display
  name read from the response.
\<close>

definition removal :: "accessory list \<Rightarrow> string \<Rightarrow> event list" where
  "removal accs act =
     [Log_info (''Removing accessory with action '' @ act),
      (if filter (\<lambda>a. action a = act) accs = []
       then Log_error (''Unable to remove accessory '' @ act @ ''! Does not exist.'')
       else Unregister (filter (\<lambda>a. action a = act) accs))]"

definition entity :: "(string \<Rightarrow> uuid) \<Rightarrow> string \<Rightarrow> string \<Rightarrow> string \<Rightarrow> accessory" where
  "entity gen url name act =
     \<lparr>displayName = name, UUID = gen name, action = act, actionUrl = url @ act\<rparr>"

definition addition :: "(string \<Rightarrow> uuid) \<Rightarrow> string \<Rightarrow> string \<Rightarrow> string \<Rightarrow> event list" where
  "addition gen url name act =
     [Log_info (''Adding new accessory with name '' @ name),
      Log_info (''Configuring accessory '' @ name),
      Register [entity gen url name act]]"

definition name_of :: "jsval \<Rightarrow> string \<Rightarrow> string" where
  "name_of switchData k = (case element switchData k of JStr name \<Rightarrow> name | _ \<Rightarrow> [])"

text \<open>
  The events of a pass up to its first addition, for a store \<open>accs\<close> and the two
  differences.
\<close>

definition preamble :: "accessory list \<Rightarrow> string list \<Rightarrow> string list \<Rightarrow> event list" where
  "preamble accs toRemove toAdd =
     [Log_info ''Cache restored.'', Log_info ''Loading switch data'',
      Log_info (''Removing switches: '' @ join '', '' toRemove)]
     @ concat (map (removal accs) toRemove)
     @ [Log_info (''Adding switches: '' @ join '', '' toAdd)]"

text \<open>
  For any value given as the name: the events \<open>addAccessory\<close> adds, and the accessory it
  puts into the array, if it gets that far.
\<close>

fun attempt :: "(string \<Rightarrow> uuid) \<Rightarrow> string \<Rightarrow> jsval \<Rightarrow> string \<Rightarrow> event list" where
  "attempt gen url (JStr n) act =
     (if n = [] then [Log_info ''Adding new accessory with name '']
      else addition gen url n act)"
| "attempt gen url v act = [Log_info_value ''Adding new accessory with name '' v]"

fun built :: "(string \<Rightarrow> uuid) \<Rightarrow> string \<Rightarrow> jsval \<Rightarrow> string \<Rightarrow> accessory list" where
  "built gen url (JStr n) act = (if n = [] then [] else [entity gen url n act])"
| "built gen url v act = []"

text \<open>
  The values that have no own enumerable property whatever they contain: \<open>undefined\<close>,
  \<open>null\<close>, booleans and numbers.
\<close>

fun keyless :: "jsval \<Rightarrow> bool" where
  "keyless JUndefined = True"
| "keyless JNull = True"
| "keyless (JBool b) = True"
| "keyless (JNum n) = True"
| "keyless v = False"

text \<open>
  The keys for which the additions go through: each carries a name that is a non-empty
  string, the identifiers generated from the names are pairwise distinct, and the host
  holds none of them.
\<close>

fun nonempty_name :: "jsval \<Rightarrow> bool" where
  "nonempty_name (JStr n) = (n \<noteq> [])"
| "nonempty_name v = False"

definition creatable :: "(string \<Rightarrow> uuid) \<Rightarrow> jsval \<Rightarrow> string list \<Rightarrow> uuid list \<Rightarrow> bool" where
  "creatable gen switchData ks held \<longleftrightarrow>
     list_all (\<lambda>k. nonempty_name (element switchData k)) ks
     \<and> distinct (map (\<lambda>k. gen (name_of switchData k)) ks)
     \<and> list_all (\<lambda>k. gen (name_of switchData k) \<notin> set held) ks"

section \<open>Example data\<close>

definition example_gen :: "string \<Rightarrow> uuid" where
  "example_gen name = ''uuid-'' @ name"

definition lamp :: accessory where
  "lamp = \<lparr>displayName = ''Lamp'', UUID = ''uuid-Lamp'', action = ''A'',
           actionUrl = ''http://registry/api/v1/A''\<rparr>"

definition fan :: accessory where
  "fan = \<lparr>displayName = ''Fan'', UUID = ''uuid-Fan'', action = ''B'',
          actionUrl = ''http://registry/api/v1/B''\<rparr>"

text \<open>
  At startup the host holds every accessory of its cache on the bridge and hands it to
  \<open>configureAccessory\<close>.
\<close>

definition restored :: "accessory \<Rightarrow> platform \<Rightarrow> platform" where
  "restored acc st = (configureAccessory acc st)\<lparr>bridged := bridged st @ [UUID acc]\<rparr>"

definition store_AB :: platform where
  "store_AB = restored fan (restored lamp (WebRFPlatform ''http://registry''))"

definition store_empty :: platform where
  "store_empty = WebRFPlatform ''http://registry''"

definition mapping_AC :: jsval where
  "mapping_AC = JObj [(''A'', JStr ''Lamp''), (''C'', JStr ''Heater'')]"

definition mapping_A :: jsval where
  "mapping_A = JObj [(''A'', JStr ''Lamp'')]"

definition mapping_CD :: jsval where
  "mapping_CD = JObj [(''C'', JStr ''Heater''), (''D'', JStr ''Heater'')]"

definition mapping_blank :: jsval where
  "mapping_blank = JObj [(''C'', JStr []), (''D'', JStr ''Fan'')]"

section \<open>Properties of the operations\<close>

lemma emit_simps [simp]:
  "events (emit e st) = events st @ [e]"
  "accessories (emit e st) = accessories st"
  "configURL (emit e st) = configURL st"
  "bridged (emit e st) = bridged st"
  by (simp_all add: emit_def)

lemma emitted_eq: "events st' = events st @ es \<Longrightarrow> emitted st st' = es"
  by (simp add: emitted_def)

lemma emitted_append [simp]:
  "emitted st (st\<lparr>events := events st @ es\<rparr>) = es"
  "emitted st (st\<lparr>events := events st @ es, bridged := held\<rparr>) = es"
  "emitted st (st\<lparr>accessories := accs, events := events st @ es, bridged := held\<rparr>) = es"
  by (simp_all add: emitted_def)

lemma removeAccessory_simps [simp]:
  "accessories (removeAccessory act st) = accessories st"
  "configURL (removeAccessory act st) = configURL st"
  "events (removeAccessory act st) = events st @ removal (accessories st) act"
  by (simp_all add: removeAccessory_def unregisterPlatformAccessories_def removal_def Let_def)

lemma fold_removeAccessory_simps [simp]:
  "accessories (fold removeAccessory acts st) = accessories st"
  "configURL (fold removeAccessory acts st) = configURL st"
  "events (fold removeAccessory acts st)
     = events st @ concat (map (removal (accessories st)) acts)"
  by (induction acts arbitrary: st) simp_all

lemma bridged_removeAccessory_emit:
  "bridged (removeAccessory act (emit e st)) = bridged (removeAccessory act st)"
  by (simp add: removeAccessory_def unregisterPlatformAccessories_def Let_def)

lemma bridged_removeAccessory_cong:
  "accessories st = accessories st' \<Longrightarrow> bridged st = bridged st' \<Longrightarrow>
   bridged (removeAccessory act st) = bridged (removeAccessory act st')"
  by (simp add: removeAccessory_def unregisterPlatformAccessories_def Let_def)

lemma bridged_fold_removeAccessory_cong:
  "accessories st = accessories st' \<Longrightarrow> bridged st = bridged st' \<Longrightarrow>
   bridged (fold removeAccessory acts st) = bridged (fold removeAccessory acts st')"
proof (induction acts arbitrary: st st')
  case Nil
  then show ?case by simp
next
  case (Cons k ks)
  show ?case
    using Cons.prems
    by (auto intro!: Cons.IH bridged_removeAccessory_cong)
qed

lemma addAccessory_simps [simp]:
  "configURL (snd (addAccessory gen v act st)) = configURL st"
  "events (snd (addAccessory gen v act st)) = events st @ attempt gen (configURL st) v act"
  "accessories (snd (addAccessory gen v act st))
     = accessories st @ built gen (configURL st) v act"
  by (cases v; simp add: addAccessory_def configureAccessory_def registerPlatformAccessories_def
        addition_def entity_def Let_def)+

lemma addAccessory_ok:
  "n \<noteq> [] \<Longrightarrow> gen n \<notin> set (bridged st) \<Longrightarrow>
   fst (addAccessory gen (JStr n) act st) = None
   \<and> bridged (snd (addAccessory gen (JStr n) act st)) = bridged st @ [gen n]"
  by (simp add: addAccessory_def configureAccessory_def registerPlatformAccessories_def Let_def)

lemma addAccessory_bridged:
  "n \<noteq> [] \<Longrightarrow> gen n \<in> set (bridged (snd (addAccessory gen (JStr n) act st)))"
  by (simp add: addAccessory_def configureAccessory_def registerPlatformAccessories_def Let_def)

lemma addAccessory_refused:
  "n \<noteq> [] \<Longrightarrow> gen n \<in> set (bridged st) \<Longrightarrow>
   fst (addAccessory gen (JStr n) act st) = Some Error_same_UUID"
  by (simp add: addAccessory_def configureAccessory_def registerPlatformAccessories_def Let_def)

lemma addEach_prefix:
  "\<exists>n. (acts \<noteq> [] \<longrightarrow> 0 < n)
     \<and> events (snd (addEach gen switchData acts st))
         = events st @ concat (map (\<lambda>k. attempt gen (configURL st) (element switchData k) k)
                                 (take n acts))
     \<and> accessories (snd (addEach gen switchData acts st))
         = accessories st @ concat (map (\<lambda>k. built gen (configURL st) (element switchData k) k)
                                      (take n acts))"
proof (induction acts arbitrary: st)
  case Nil
  show ?case by (rule exI [of _ 0]) simp
next
  case (Cons k ks)
  obtain e st1 where step: "addAccessory gen (element switchData k) k st = (e, st1)"
    by (cases "addAccessory gen (element switchData k) k st")
  have st1: "st1 = snd (addAccessory gen (element switchData k) k st)"
    by (simp add: step)
  show ?case
  proof (cases e)
    case None
    from Cons.IH [of st1] obtain n where
      ev: "events (snd (addEach gen switchData ks st1))
         = events st1 @ concat (map (\<lambda>k. attempt gen (configURL st1) (element switchData k) k)
                                 (take n ks))"
      and ac: "accessories (snd (addEach gen switchData ks st1))
         = accessories st1 @ concat (map (\<lambda>k. built gen (configURL st1) (element switchData k) k)
                                      (take n ks))"
      by blast
    show ?thesis
      by (rule exI [of _ "Suc n"]) (simp add: step None ev ac, simp add: st1)
  next
    case (Some err)
    show ?thesis
      by (rule exI [of _ "Suc 0"]) (simp add: step Some, simp add: st1)
  qed
qed

lemma creatable_Cons:
  "creatable gen switchData (k # ks) held \<longleftrightarrow>
     nonempty_name (element switchData k)
   \<and> gen (name_of switchData k) \<notin> set held
   \<and> creatable gen switchData ks (held @ [gen (name_of switchData k)])"
  by (auto simp: creatable_def list_all_iff image_iff)

lemma nonempty_name_iff:
  "nonempty_name v \<longleftrightarrow> (\<exists>n. v = JStr n \<and> n \<noteq> [])"
  by (cases v) simp_all

lemma addEach_creatable:
  "creatable gen switchData acts (bridged st) \<Longrightarrow>
   fst (addEach gen switchData acts st) = None
   \<and> events (snd (addEach gen switchData acts st))
       = events st @ concat (map (\<lambda>k. addition gen (configURL st) (name_of switchData k) k) acts)
   \<and> accessories (snd (addEach gen switchData acts st))
       = accessories st @ map (\<lambda>k. entity gen (configURL st) (name_of switchData k) k) acts"
proof (induction acts arbitrary: st)
  case Nil
  then show ?case by simp
next
  case (Cons k ks)
  from Cons.prems obtain n where
    el: "element switchData k = JStr n" and n: "n \<noteq> []"
    and fresh: "gen n \<notin> set (bridged st)"
    and rest: "creatable gen switchData ks (bridged st @ [gen n])"
    by (auto simp: creatable_Cons nonempty_name_iff name_of_def)
  let ?st1 = "snd (addAccessory gen (JStr n) k st)"
  have ok: "fst (addAccessory gen (JStr n) k st) = None"
    and held: "bridged ?st1 = bridged st @ [gen n]"
    using addAccessory_ok [of n gen st k, OF n fresh] by simp_all
  from ok obtain st1 where step: "addAccessory gen (JStr n) k st = (None, st1)"
    by (cases "addAccessory gen (JStr n) k st") auto
  have nm: "name_of switchData k = n"
    by (simp add: name_of_def el)
  from Cons.IH [of ?st1] rest held
  have ih: "fst (addEach gen switchData ks ?st1) = None
   \<and> events (snd (addEach gen switchData ks ?st1))
       = events ?st1 @ concat (map (\<lambda>k. addition gen (configURL ?st1) (name_of switchData k) k) ks)
   \<and> accessories (snd (addEach gen switchData ks ?st1))
       = accessories ?st1 @ map (\<lambda>k. entity gen (configURL ?st1) (name_of switchData k) k) ks"
    by simp
  have unfold: "addEach gen switchData (k # ks) st = addEach gen switchData ks ?st1"
    by (simp add: el step)
  show ?case
    unfolding unfold using ih n by (simp add: nm)
qed


lemma registrations_append [simp]:
  "registrations (xs @ ys) = registrations xs @ registrations ys"
  by (induction xs rule: registrations.induct) simp_all

lemma unregistrations_append [simp]:
  "unregistrations (xs @ ys) = unregistrations xs @ unregistrations ys"
  by (induction xs rule: unregistrations.induct) simp_all

lemma registrations_removals [simp]:
  "registrations (concat (map (removal accs) acts)) = []"
  by (induction acts) (simp_all add: removal_def)

lemma unregistrations_removals:
  "set acts \<subseteq> set (map action accs) \<Longrightarrow>
   unregistrations (concat (map (removal accs) acts)) =
     map (\<lambda>k. filter (\<lambda>a. action a = k) accs) acts"
proof (induction acts)
  case Nil
  then show ?case by simp
next
  case (Cons k ks)
  then have "k \<in> action ` set accs" by simp
  then have "filter (\<lambda>a. action a = k) accs \<noteq> []"
    by (auto simp: filter_empty_conv)
  with Cons show ?case by (simp add: removal_def)
qed

lemma unregistrations_removals_subset:
  "set (concat (unregistrations (concat (map (removal accs) acts)))) \<subseteq> set accs"
  by (induction acts) (auto simp: removal_def)

lemma attempt_observed [simp]:
  "unregistrations (attempt gen url v act) = []"
  "concat (registrations (attempt gen url v act)) = built gen url v act"
  "Log_info ''No switches to remove'' \<notin> set (attempt gen url v act)"
  "Log_info ''No switches to add'' \<notin> set (attempt gen url v act)"
  by (cases v; simp add: addition_def)+

lemma attempts_observed [simp]:
  "unregistrations (concat (map (\<lambda>k. attempt gen url (f k) k) ks)) = []"
  "concat (registrations (concat (map (\<lambda>k. attempt gen url (f k) k) ks)))
     = concat (map (\<lambda>k. built gen url (f k) k) ks)"
  "Log_info ''No switches to remove'' \<notin> set (concat (map (\<lambda>k. attempt gen url (f k) k) ks))"
  "Log_info ''No switches to add'' \<notin> set (concat (map (\<lambda>k. attempt gen url (f k) k) ks))"
  by (induction ks) simp_all

lemma additions_observed [simp]:
  "unregistrations (concat (map (\<lambda>k. addition gen url (f k) k) ks)) = []"
  "registrations (concat (map (\<lambda>k. addition gen url (f k) k) ks))
     = map (\<lambda>k. [entity gen url (f k) k]) ks"
  by (induction ks) (simp_all add: addition_def)

lemma removals_quiet [simp]:
  "Log_info ''No switches to remove'' \<notin> set (concat (map (removal accs) acts))"
  "Log_info ''No switches to add'' \<notin> set (concat (map (removal accs) acts))"
  by (induction acts) (simp_all add: removal_def)

lemma preamble_observed [simp]:
  "registrations (preamble accs toRemove toAdd) = []"
  "unregistrations (preamble accs toRemove toAdd)
     = unregistrations (concat (map (removal accs) toRemove))"
  "Log_info ''No switches to remove'' \<notin> set (preamble accs toRemove toAdd)"
  "Log_info ''No switches to add'' \<notin> set (preamble accs toRemove toAdd)"
  "Log_info (''Removing switches: '' @ join '', '' toRemove) \<in> set (preamble accs toRemove toAdd)"
  "Log_info (''Adding switches: '' @ join '', '' toAdd) \<in> set (preamble accs toRemove toAdd)"
  using removals_quiet [of accs toRemove] by (simp_all add: preamble_def)

lemma built_subset:
  "set (map action (concat (map (\<lambda>k. built gen url (f k) k) ks))) \<subseteq> set ks"
proof (induction ks)
  case Nil
  then show ?case by simp
next
  case (Cons k ks)
  have "set (map action (built gen url (f k) k)) \<subseteq> {k}"
    by (cases "f k") (simp_all add: entity_def)
  with Cons show ?case by auto
qed

lemma built_generated:
  "a \<in> set (built gen url v act) \<Longrightarrow>
     UUID a = gen (displayName a) \<and> v = JStr (displayName a) \<and> action a = act"
  by (cases v) (auto simp: entity_def split: if_splits)

lemma set_switchesToAdd:
  "set (switchesToAdd registered remote) = set remote - set registered"
  by (auto simp: switchesToAdd_def lodash_difference_def)

lemma set_switchesToRemove:
  "set (switchesToRemove registered remote) = set registered - set remote"
  by (auto simp: switchesToRemove_def lodash_difference_def)

lemma didFinishLaunching_data:
  assumes "member body ''data'' = Inr switchData"
  shows "didFinishLaunching gen (Response body) st =
     addEach gen switchData
       (switchesToAdd (map action (accessories st)) (lodash_keys switchData))
       (emit (Log_info (''Adding switches: '' @ join '', ''
                (switchesToAdd (map action (accessories st)) (lodash_keys switchData))))
          (fold removeAccessory
             (switchesToRemove (map action (accessories st)) (lodash_keys switchData))
             (emit (Log_info (''Removing switches: '' @ join '', ''
                      (switchesToRemove (map action (accessories st)) (lodash_keys switchData))))
                (emit (Log_info ''Loading switch data'')
                   (emit (Log_info ''Cache restored.'') st)))))"
  using assms by (simp add: didFinishLaunching_def Let_def truthy_def)

lemma didFinishLaunching_prefix:
  assumes "member body ''data'' = Inr switchData"
  shows "\<exists>n. (switchesToAdd (map action (accessories st)) (lodash_keys switchData) \<noteq> [] \<longrightarrow> 0 < n)
     \<and> events (snd (didFinishLaunching gen (Response body) st))
         = events st
           @ preamble (accessories st)
               (switchesToRemove (map action (accessories st)) (lodash_keys switchData))
               (switchesToAdd (map action (accessories st)) (lodash_keys switchData))
           @ concat (map (\<lambda>k. attempt gen (configURL st) (element switchData k) k)
               (take n (switchesToAdd (map action (accessories st)) (lodash_keys switchData))))
     \<and> accessories (snd (didFinishLaunching gen (Response body) st))
         = accessories st
           @ concat (map (\<lambda>k. built gen (configURL st) (element switchData k) k)
               (take n (switchesToAdd (map action (accessories st)) (lodash_keys switchData))))"
proof -
  let ?add = "switchesToAdd (map action (accessories st)) (lodash_keys switchData)"
  let ?rem = "switchesToRemove (map action (accessories st)) (lodash_keys switchData)"
  let ?st3 = "emit (Log_info (''Adding switches: '' @ join '', '' ?add))
          (fold removeAccessory ?rem
             (emit (Log_info (''Removing switches: '' @ join '', '' ?rem))
                (emit (Log_info ''Loading switch data'')
                   (emit (Log_info ''Cache restored.'') st))))"
  have ev: "events ?st3 = events st @ preamble (accessories st) ?rem ?add"
    and ac: "accessories ?st3 = accessories st"
    and url: "configURL ?st3 = configURL st"
    by (simp_all add: preamble_def)
  from addEach_prefix [of ?add gen switchData ?st3]
  show ?thesis
    unfolding didFinishLaunching_data [OF assms] ev ac url by simp
qed

lemma didFinishLaunching_creatable:
  assumes "member body ''data'' = Inr switchData"
    and "creatable gen switchData
           (switchesToAdd (map action (accessories st)) (lodash_keys switchData))
           (bridged (fold removeAccessory
              (switchesToRemove (map action (accessories st)) (lodash_keys switchData)) st))"
  shows "fst (didFinishLaunching gen (Response body) st) = None
     \<and> events (snd (didFinishLaunching gen (Response body) st))
         = events st
           @ preamble (accessories st)
               (switchesToRemove (map action (accessories st)) (lodash_keys switchData))
               (switchesToAdd (map action (accessories st)) (lodash_keys switchData))
           @ concat (map (\<lambda>k. addition gen (configURL st) (name_of switchData k) k)
               (switchesToAdd (map action (accessories st)) (lodash_keys switchData)))
     \<and> accessories (snd (didFinishLaunching gen (Response body) st))
         = accessories st
           @ map (\<lambda>k. entity gen (configURL st) (name_of switchData k) k)
               (switchesToAdd (map action (accessories st)) (lodash_keys switchData))"
proof -
  let ?add = "switchesToAdd (map action (accessories st)) (lodash_keys switchData)"
  let ?rem = "switchesToRemove (map action (accessories st)) (lodash_keys switchData)"
  let ?st2 = "emit (Log_info (''Removing switches: '' @ join '', '' ?rem))
                (emit (Log_info ''Loading switch data'')
                   (emit (Log_info ''Cache restored.'') st))"
  let ?st3 = "emit (Log_info (''Adding switches: '' @ join '', '' ?add))
          (fold removeAccessory ?rem ?st2)"
  have ev: "events ?st3 = events st @ preamble (accessories st) ?rem ?add"
    and ac: "accessories ?st3 = accessories st"
    and url: "configURL ?st3 = configURL st"
    by (simp_all add: preamble_def)
  have "bridged ?st3 = bridged (fold removeAccessory ?rem ?st2)"
    by simp
  also have "\<dots> = bridged (fold removeAccessory ?rem st)"
    by (rule bridged_fold_removeAccessory_cong) simp_all
  finally have held: "bridged ?st3 = bridged (fold removeAccessory ?rem st)" .
  from addEach_creatable [of gen switchData ?add ?st3] assms(2)
  show ?thesis
    unfolding didFinishLaunching_data [OF assms(1)] held ev ac url by simp
qed

lemma didFinishLaunching_extends:
  "\<exists>accs es. accessories (snd (didFinishLaunching gen switches st)) = accessories st @ accs
     \<and> events (snd (didFinishLaunching gen switches st)) = events st @ es
     \<and> set (concat (unregistrations es)) \<subseteq> set (accessories st)"
proof (cases switches)
  case Rejected
  show ?thesis unfolding Rejected
    by (rule exI [of _ "[]"],
        rule exI [of _ "[Log_info ''Cache restored.'', Log_info ''Loading switch data'',
                         Log_error ''Failed to access server!'']"])
       (simp add: didFinishLaunching_def)
next
  case (Response body)
  show ?thesis
  proof (cases "member body ''data''")
    case (Inl e)
    show ?thesis unfolding Response
      by (rule exI [of _ "[]"],
          rule exI [of _ "[Log_info ''Cache restored.'', Log_info ''Loading switch data'']"])
         (simp add: didFinishLaunching_def Inl)
  next
    case (Inr switchData)
    from didFinishLaunching_prefix [OF Inr, of st gen] obtain n where
      ev: "events (snd (didFinishLaunching gen (Response body) st))
         = events st
           @ preamble (accessories st)
               (switchesToRemove (map action (accessories st)) (lodash_keys switchData))
               (switchesToAdd (map action (accessories st)) (lodash_keys switchData))
           @ concat (map (\<lambda>k. attempt gen (configURL st) (element switchData k) k)
               (take n (switchesToAdd (map action (accessories st)) (lodash_keys switchData))))"
      and ac: "accessories (snd (didFinishLaunching gen (Response body) st))
         = accessories st
           @ concat (map (\<lambda>k. built gen (configURL st) (element switchData k) k)
               (take n (switchesToAdd (map action (accessories st)) (lodash_keys switchData))))"
      by blast
    have quiet: "set (concat (unregistrations
           (preamble (accessories st)
               (switchesToRemove (map action (accessories st)) (lodash_keys switchData))
               (switchesToAdd (map action (accessories st)) (lodash_keys switchData))
           @ concat (map (\<lambda>k. attempt gen (configURL st) (element switchData k) k)
               (take n (switchesToAdd (map action (accessories st)) (lodash_keys switchData)))))))
         \<subseteq> set (accessories st)"
      using unregistrations_removals_subset [of "accessories st"
          "switchesToRemove (map action (accessories st)) (lodash_keys switchData)"]
      by simp
    show ?thesis unfolding Response
      by (intro exI conjI, rule ac, rule ev, rule quiet)
  qed
qed


lemma store_AB_eq:
  "store_AB = \<lparr>configURL = ''http://registry/api/v1/'', accessories = [lamp, fan],
      events = [Log_info ''Starting WebRF Plugin'', Log_info ''Configuring accessory Lamp'',
                Log_info ''Configuring accessory Fan''],
      bridged = [''uuid-Lamp'', ''uuid-Fan'']\<rparr>"
  by (simp add: store_AB_def restored_def configureAccessory_def WebRFPlatform_def emit_def
      lamp_def fan_def trimRight_def isWhiteSpace_def)

lemma store_empty_eq:
  "store_empty = \<lparr>configURL = ''http://registry/api/v1/'', accessories = [],
      events = [Log_info ''Starting WebRF Plugin''], bridged = []\<rparr>"
  by (simp add: store_empty_def WebRFPlatform_def emit_def trimRight_def isWhiteSpace_def)

lemma example_keys:
  "map action (accessories store_AB) = [''A'', ''B'']"
  "map action (accessories store_empty) = []"
  "lodash_keys mapping_AC = [''A'', ''C'']"
  "lodash_keys mapping_A = [''A'']"
  "lodash_keys mapping_CD = [''C'', ''D'']"
  "lodash_keys mapping_blank = [''C'', ''D'']"
  by (simp_all add: store_AB_eq store_empty_eq lamp_def fan_def lodash_keys_def
      mapping_AC_def mapping_A_def mapping_CD_def mapping_blank_def)

lemmas run_defs =
  didFinishLaunching_def emit_def removeAccessory_def addAccessory_def configureAccessory_def
  registerPlatformAccessories_def unregisterPlatformAccessories_def
  truthy_def switchesToRemove_def switchesToAdd_def lodash_difference_def lodash_keys_def
  element_def Let_def emitted_def created_def destroyed_def removal_def addition_def entity_def

lemma pass_A_on_AB:
  "didFinishLaunching example_gen (Response (JObj [(''data'', mapping_A)])) store_AB =
     (None, store_AB\<lparr>events := events store_AB @
        [Log_info ''Cache restored.'', Log_info ''Loading switch data'',
         Log_info ''Removing switches: B'', Log_info ''Removing accessory with action B'',
         Unregister [fan], Log_info ''Adding switches: ''],
        bridged := [''uuid-Lamp'']\<rparr>)"
  by (simp add: run_defs store_AB_eq mapping_A_def lamp_def fan_def)

lemma keyless_keys: "keyless v \<Longrightarrow> lodash_keys v = []"
  by (cases v) (simp_all add: lodash_keys_def)

lemma attempt_first:
  "log_info_with ''Adding new accessory with name '' v \<in> set (attempt gen url v act)"
  by (cases v) (simp_all add: addition_def)

section \<open>The claims\<close>




text \<open>
  C2. Two passes with the same remote mapping: the claim is that the second pass
  registers and unregisters nothing. It fails on the store \<open>{A, B}\<close> with the remote
  keys \<open>{A}\<close>. The first pass unregisters the accessory of \<open>B\<close> and leaves it in the
  array, so the second pass finds \<open>B\<close> in the store again and unregisters it a second
  time. \<open>removeAccessories\<close>, which unregisters everything, does empty the array.
\<close>

theorem C2_second_pass_destroys_again:
  "destroyed (emitted store_AB
       (snd (didFinishLaunching example_gen (Response (JObj [(''data'', mapping_A)])) store_AB)))
     = [''B'']
   \<and> accessories
       (snd (didFinishLaunching example_gen (Response (JObj [(''data'', mapping_A)])) store_AB))
     = [lamp, fan]
   \<and> destroyed (emitted
       (snd (didFinishLaunching example_gen (Response (JObj [(''data'', mapping_A)])) store_AB))
       (snd (didFinishLaunching example_gen (Response (JObj [(''data'', mapping_A)]))
          (snd (didFinishLaunching example_gen (Response (JObj [(''data'', mapping_A)])) store_AB)))))
     = [''B'']
   \<and> accessories (removeAccessories store_AB) = []"
  by (simp add: run_defs removeAccessories_def store_AB_eq mapping_A_def lamp_def fan_def)

text \<open>
  C3. A response without a mapping under \<open>data.data\<close>: the claim is that the pass fails
  with a protocol error and destroys nothing. It fails on the body \<open>{}\<close> with the store
  \<open>{A, B}\<close>: the pass ends without an exception and unregisters both accessories.
\<close>

theorem C3_counterexample:
  "fst (didFinishLaunching example_gen (Response (JObj [])) store_AB) = None
   \<and> unregistrations (emitted store_AB
        (snd (didFinishLaunching example_gen (Response (JObj [])) store_AB))) = [[lamp], [fan]]"
  by (simp add: run_defs store_AB_eq lamp_def fan_def)

text \<open>
  C3, as the code has it. When \<open>data.data\<close> is \<open>undefined\<close>, \<open>null\<close>, a boolean or a
  number, the pass raises nothing and takes the set of remote keys as empty: it
  registers nothing, leaves the array of accessories as it is, and for the action key of
  every accessory of the store unregisters the accessories that carry it. When the body
  itself is \<open>undefined\<close> or \<open>null\<close>, reading \<open>.data\<close> raises a \<open>TypeError\<close> after the
  two opening log lines, before anything is registered or unregistered.
\<close>

theorem C3_malformed_response:
  "(member body ''data'' = Inr switchData \<and> keyless switchData \<longrightarrow>
      fst (didFinishLaunching gen (Response body) st) = None
    \<and> accessories (snd (didFinishLaunching gen (Response body) st)) = accessories st
    \<and> registrations (emitted st (snd (didFinishLaunching gen (Response body) st))) = []
    \<and> unregistrations (emitted st (snd (didFinishLaunching gen (Response body) st)))
        = map (\<lambda>k. filter (\<lambda>a. action a = k) (accessories st)) (map action (accessories st)))
   \<and> (body = JUndefined \<or> body = JNull \<longrightarrow>
      didFinishLaunching gen (Response body) st =
        (Some TypeError,
         st\<lparr>events := events st @ [Log_info ''Cache restored.'', Log_info ''Loading switch data'']\<rparr>))"
proof (intro conjI impI)
  assume "body = JUndefined \<or> body = JNull"
  then show "didFinishLaunching gen (Response body) st =
        (Some TypeError,
         st\<lparr>events := events st @ [Log_info ''Cache restored.'', Log_info ''Loading switch data'']\<rparr>)"
    by (auto simp: didFinishLaunching_def emit_def)
next
  assume h: "member body ''data'' = Inr switchData \<and> keyless switchData"
  then have data: "member body ''data'' = Inr switchData"
    and keys: "lodash_keys switchData = []"
    by (simp_all add: keyless_keys)
  have add: "switchesToAdd (map action (accessories st)) [] = []"
    by (simp add: switchesToAdd_def lodash_difference_def)
  have rem: "switchesToRemove (map action (accessories st)) [] = map action (accessories st)"
    by (simp add: switchesToRemove_def lodash_difference_def)
  note run = didFinishLaunching_data [OF data, of gen st, unfolded keys add rem]
  have ev: "events (snd (didFinishLaunching gen (Response body) st))
      = events st @ preamble (accessories st) (map action (accessories st)) []"
    by (simp add: run preamble_def del: map_map)
  show "fst (didFinishLaunching gen (Response body) st) = None"
    by (simp add: run)
  show "accessories (snd (didFinishLaunching gen (Response body) st)) = accessories st"
    by (simp add: run)
  show "registrations (emitted st (snd (didFinishLaunching gen (Response body) st))) = []"
    by (simp add: emitted_eq [OF ev])
  show "unregistrations (emitted st (snd (didFinishLaunching gen (Response body) st)))
        = map (\<lambda>k. filter (\<lambda>a. action a = k) (accessories st)) (map action (accessories st))"
    by (simp add: emitted_eq [OF ev] unregistrations_removals del: map_map)
qed

theorem C3_witness:
  "member (JObj []) ''data'' = Inr JUndefined
   \<and> keyless JUndefined
   \<and> accessories (snd (didFinishLaunching example_gen (Response (JObj [])) store_AB))
       = [lamp, fan]
   \<and> registrations (emitted store_AB
        (snd (didFinishLaunching example_gen (Response (JObj [])) store_AB))) = []
   \<and> unregistrations (emitted store_AB
        (snd (didFinishLaunching example_gen (Response (JObj [])) store_AB))) = [[lamp], [fan]]
   \<and> didFinishLaunching example_gen (Response JNull) store_AB =
        (Some TypeError,
         store_AB\<lparr>events := events store_AB
            @ [Log_info ''Cache restored.'', Log_info ''Loading switch data'']\<rparr>)"
proof -
  have h: "member (JObj []) ''data'' = Inr JUndefined \<and> keyless JUndefined"
    by simp
  from C3_malformed_response [of "JObj []" JUndefined example_gen store_AB]
       C3_malformed_response [of JNull JUndefined example_gen store_AB] h
  show ?thesis
    by (simp add: store_AB_eq lamp_def fan_def)
qed

text \<open>
  C4. When the request for the remote list is rejected, the pass stops there: it writes
  the error line to the log, registers nothing, unregisters nothing, raises nothing, and
  leaves the platform as it was apart from the three log lines.
\<close>

theorem C4_fetch_failure:
  "didFinishLaunching gen Rejected st =
     (None, st\<lparr>events := events st @ [Log_info ''Cache restored.'',
                                         Log_info ''Loading switch data'',
                                         Log_error ''Failed to access server!'']\<rparr>)
   \<and> accessories (snd (didFinishLaunching gen Rejected st)) = accessories st
   \<and> registrations (emitted st (snd (didFinishLaunching gen Rejected st))) = []
   \<and> unregistrations (emitted st (snd (didFinishLaunching gen Rejected st))) = []
   \<and> Log_error ''Failed to access server!''
        \<in> set (emitted st (snd (didFinishLaunching gen Rejected st)))"
  by (simp add: didFinishLaunching_def emit_def emitted_def)



text \<open>
  C6. However the request of an activation is settled, the handler has started one timer
  that is due 3000 ms after the activation, and the settlement changes the log only: the
  value of the characteristic and the pending timers are what they were. Whether the
  request is settled before or after the timer fires, the value is \<open>True\<close> after the
  activation and \<open>False\<close> once the timer has fired. A rejected request, the status
  \<open>ok\<close> and any other status differ in the line they write.
\<close>

theorem C6_outcome_independence:
  "snd (onSettled acc response s) = s\<lparr>logged := logged (snd (onSettled acc response s))\<rparr>
   \<and> isOn (snd (onSettled acc response s)) = isOn s
   \<and> timers (snd (onSettled acc response s)) = timers s
   \<and> timers (onSet acc now v s) = timers s @ [now + 3000]
   \<and> map isOn [onSet acc now True s,
        snd (onSettled acc response (onSet acc now True s)),
        onTimeout acc (snd (onSettled acc response (onSet acc now True s)))]
       = [True, True, False]
   \<and> map isOn [onSet acc now True s,
        onTimeout acc (onSet acc now True s),
        snd (onSettled acc response (onTimeout acc (onSet acc now True s)))]
       = [True, False, False]
   \<and> logged (snd (onSettled acc Rejected s))
       = logged s @ [Log_error (''Failed to trigger request for '' @ displayName acc)]
   \<and> logged (snd (onSettled acc (Response (JObj [(''status'', JStr ''ok'')])) s))
       = logged s @ [Log_info (displayName acc @ '' triggered successfully!'')]
   \<and> logged (snd (onSettled acc (Response (JObj [(''status'', JStr ''failed'')])) s))
       = logged s @ [Log_error (''Failed to trigger: '' @ displayName acc
                                  @ ''! Please check server!'')]"
proof -
  have frame: "snd (onSettled acc response t) = t\<lparr>logged := logged (snd (onSettled acc response t))\<rparr>"
    for t
    by (simp add: onSettled_def write_log_def split: settled.splits sum.splits)
  have on: "isOn (snd (onSettled acc response t)) = isOn t" for t
    by (simp add: onSettled_def write_log_def split: settled.splits sum.splits)
  have ti: "timers (snd (onSettled acc response t)) = timers t" for t
    by (simp add: onSettled_def write_log_def split: settled.splits sum.splits)
  have set_on: "isOn (onSet acc now True s) = True"
    and set_timers: "timers (onSet acc now v s) = timers s @ [now + 3000]"
    by (simp_all add: onSet_def write_log_def Let_def)
  have reset: "isOn (onTimeout acc t) = False" for t
    by (simp add: onTimeout_def write_log_def Let_def)
  have logs: "logged (snd (onSettled acc Rejected s))
       = logged s @ [Log_error (''Failed to trigger request for '' @ displayName acc)]"
    "logged (snd (onSettled acc (Response (JObj [(''status'', JStr ''ok'')])) s))
       = logged s @ [Log_info (displayName acc @ '' triggered successfully!'')]"
    "logged (snd (onSettled acc (Response (JObj [(''status'', JStr ''failed'')])) s))
       = logged s @ [Log_error (''Failed to trigger: '' @ displayName acc
                                  @ ''! Please check server!'')]"
    by (simp_all add: onSettled_def write_log_def)
  show ?thesis
    using frame [of s] logs by (simp add: on ti set_on set_timers reset)
qed

text \<open>
  C7. The claim is that trailing \<open>/\<close> characters of the configured address are removed
  before \<open>/api/v1/\<close> is appended. The constructor calls \<open>trimRight("/")\<close>, which ignores
  its argument and removes white space only: for the address \<open>http://registry/\<close> the
  slash stays, and the URL of an accessory created under it has two slashes.
\<close>

theorem C7_trailing_slash_kept:
  "configURL (WebRFPlatform ''http://registry/'') = ''http://registry//api/v1/''
   \<and> fst (addAccessory example_gen (JStr ''Lamp'') ''A'' (WebRFPlatform ''http://registry/'')) = None
   \<and> map actionUrl (accessories (snd (addAccessory example_gen (JStr ''Lamp'') ''A''
        (WebRFPlatform ''http://registry/'')))) = [''http://registry//api/v1/A'']"
  by (simp add: WebRFPlatform_def trimRight_def isWhiteSpace_def addAccessory_def
      configureAccessory_def registerPlatformAccessories_def emit_def Let_def)

text \<open>
  C8. Removing an action key that no accessory of the store carries writes the request
  and an error line to the log and does nothing else: no accessory is unregistered, the
  store is unchanged and no exception is raised.
\<close>

theorem C8_remove_unknown:
  assumes "act \<notin> set (map action (accessories st))"
  shows "removeAccessory act st =
           st\<lparr>events := events st @
                 [Log_info (''Removing accessory with action '' @ act),
                  Log_error (''Unable to remove accessory '' @ act @ ''! Does not exist.'')]\<rparr>
       \<and> accessories (removeAccessory act st) = accessories st
       \<and> unregistrations (emitted st (removeAccessory act st)) = []"
proof -
  from assms have "filter (\<lambda>a. action a = act) (accessories st) = []"
    by (auto simp: filter_empty_conv)
  then show ?thesis
    by (simp add: removeAccessory_def emit_def emitted_def Let_def)
qed

theorem C8_witness:
  "''C'' \<notin> set (map action (accessories store_AB))
   \<and> removeAccessory ''C'' store_AB =
       store_AB\<lparr>events := events store_AB @
          [Log_info ''Removing accessory with action C'',
           Log_error ''Unable to remove accessory C! Does not exist.'']\<rparr>
   \<and> unregistrations (emitted store_AB (removeAccessory ''C'' store_AB)) = []"
proof -
  have h: "''C'' \<notin> set (map action (accessories store_AB))"
    by (simp add: example_keys)
  from C8_remove_unknown [OF h] h show ?thesis by simp
qed

text \<open>
  C9. \<open>removeAccessory\<close> never changes the array of accessories, so after any pass the
  action key of every accessory the pass unregistered is still carried by an accessory
  of the store.
\<close>

theorem C9_removed_entities_stay:
  "accessories (removeAccessory act st) = accessories st
   \<and> (\<forall>k\<in>set (destroyed (emitted st (snd (didFinishLaunching gen switches st)))).
        k \<in> set (map action (accessories (snd (didFinishLaunching gen switches st)))))"
proof -
  from didFinishLaunching_extends [of gen switches st] obtain accs es where
    ac: "accessories (snd (didFinishLaunching gen switches st)) = accessories st @ accs"
    and ev: "events (snd (didFinishLaunching gen switches st)) = events st @ es"
    and sub: "set (concat (unregistrations es)) \<subseteq> set (accessories st)"
    by blast
  have "emitted st (snd (didFinishLaunching gen switches st)) = es"
    by (rule emitted_eq [OF ev])
  with sub show ?thesis
    by (auto simp: destroyed_def ac)
qed

theorem C9_witness:
  "destroyed (emitted store_AB
      (snd (didFinishLaunching example_gen (Response (JObj [(''data'', mapping_A)])) store_AB)))
     = [''B'']
   \<and> ''B'' \<in> set (map action (accessories
      (snd (didFinishLaunching example_gen (Response (JObj [(''data'', mapping_A)])) store_AB))))"
proof -
  have d: "destroyed (emitted store_AB
      (snd (didFinishLaunching example_gen (Response (JObj [(''data'', mapping_A)])) store_AB)))
     = [''B'']"
    by (simp add: pass_A_on_AB destroyed_def fan_def)
  from C9_removed_entities_stay
    [of "''B''" store_AB example_gen "Response (JObj [(''data'', mapping_A)])"]
  show ?thesis
    unfolding d by simp
qed

text \<open>
  C10. The identifier of a new accessory is \<open>gen\<close> of its display name and does not
  depend on the action key. For a name that is not empty, the accessory that
  \<open>addAccessory\<close> hands to the host carries the action key, the name and the identifier
  generated from the name; a creation under the same name for another key hands over
  the same identifier, and the host refuses the second of the two. In a pass, every
  accessory handed to the host carries the identifier generated from its display name,
  and that name is the one the response gives for its action key.
\<close>

theorem C10_uuid_from_name:
  "(n \<noteq> [] \<longrightarrow>
      map (\<lambda>a. (action a, displayName a, UUID a))
        (concat (registrations (emitted st (snd (addAccessory gen (JStr n) act st)))))
      = [(act, n, gen n)]
    \<and> map UUID (concat (registrations (emitted st (snd (addAccessory gen (JStr n) act st)))))
      = map UUID (concat (registrations (emitted st' (snd (addAccessory gen (JStr n) act' st')))))
    \<and> fst (addAccessory gen (JStr n) act' (snd (addAccessory gen (JStr n) act st)))
      = Some Error_same_UUID)
   \<and> (member body ''data'' = Inr switchData \<longrightarrow>
      (\<forall>a\<in>set (concat (registrations
                (emitted st (snd (didFinishLaunching gen (Response body) st))))).
         UUID a = gen (displayName a)
       \<and> element switchData (action a) = JStr (displayName a)))"
proof (intro conjI impI ballI)
  assume n: "n \<noteq> []"
  have ev: "emitted s (snd (addAccessory gen (JStr n) k s)) = addition gen (configURL s) n k"
    for s k
    using n by (simp add: emitted_eq [of _ s "addition gen (configURL s) n k"])
  show "map (\<lambda>a. (action a, displayName a, UUID a))
        (concat (registrations (emitted st (snd (addAccessory gen (JStr n) act st)))))
      = [(act, n, gen n)]"
    by (simp add: ev addition_def entity_def)
  show "map UUID (concat (registrations (emitted st (snd (addAccessory gen (JStr n) act st)))))
      = map UUID (concat (registrations (emitted st' (snd (addAccessory gen (JStr n) act' st')))))"
    by (simp add: ev addition_def entity_def)
  show "fst (addAccessory gen (JStr n) act' (snd (addAccessory gen (JStr n) act st)))
      = Some Error_same_UUID"
    by (rule addAccessory_refused [OF n addAccessory_bridged [OF n]])
next
  fix a
  assume data: "member body ''data'' = Inr switchData"
    and a: "a \<in> set (concat (registrations
                (emitted st (snd (didFinishLaunching gen (Response body) st)))))"
  let ?add = "switchesToAdd (map action (accessories st)) (lodash_keys switchData)"
  let ?rem = "switchesToRemove (map action (accessories st)) (lodash_keys switchData)"
  from didFinishLaunching_prefix [OF data, of st gen] obtain m where
    ev: "events (snd (didFinishLaunching gen (Response body) st))
       = events st
         @ (preamble (accessories st) ?rem ?add
            @ concat (map (\<lambda>k. attempt gen (configURL st) (element switchData k) k)
                (take m ?add)))"
    by auto
  from a obtain k where "a \<in> set (built gen (configURL st) (element switchData k) k)"
    by (auto simp: emitted_eq [OF ev])
  from built_generated [OF this]
  show "UUID a = gen (displayName a)" and "element switchData (action a) = JStr (displayName a)"
    by simp_all
qed

theorem C10_witness:
  "map (\<lambda>a. (action a, displayName a, UUID a))
        (concat (registrations (emitted store_AB
           (snd (addAccessory example_gen (JStr ''Heater'') ''C'' store_AB)))))
      = [(''C'', ''Heater'', ''uuid-Heater'')]
   \<and> fst (addAccessory example_gen (JStr ''Heater'') ''D''
           (snd (addAccessory example_gen (JStr ''Heater'') ''C'' store_AB)))
      = Some Error_same_UUID
   \<and> member (JObj [(''data'', mapping_CD)]) ''data'' = Inr mapping_CD
   \<and> map (\<lambda>a. (action a, displayName a, UUID a))
        (concat (registrations (emitted store_AB
           (snd (didFinishLaunching example_gen (Response (JObj [(''data'', mapping_CD)])) store_AB)))))
       = [(''C'', ''Heater'', ''uuid-Heater''), (''D'', ''Heater'', ''uuid-Heater'')]
   \<and> fst (didFinishLaunching example_gen (Response (JObj [(''data'', mapping_CD)])) store_AB)
       = Some Error_same_UUID"
proof -
  have h1: "member (JObj [(''data'', mapping_CD)]) ''data'' = Inr mapping_CD"
    by simp
  have run: "map (\<lambda>a. (action a, displayName a, UUID a))
        (concat (registrations (emitted store_AB
           (snd (didFinishLaunching example_gen (Response (JObj [(''data'', mapping_CD)])) store_AB)))))
       = [(''C'', ''Heater'', ''uuid-Heater''), (''D'', ''Heater'', ''uuid-Heater'')]
   \<and> fst (didFinishLaunching example_gen (Response (JObj [(''data'', mapping_CD)])) store_AB)
       = Some Error_same_UUID"
    by (simp add: run_defs store_AB_eq mapping_CD_def lamp_def fan_def example_gen_def)
  from C10_uuid_from_name [where n = "''Heater''" and gen = example_gen and st = store_AB
      and act = "''C''" and act' = "''D''" and st' = store_AB
      and body = "JObj [(''data'', mapping_CD)]" and switchData = mapping_CD] h1 run
  show ?thesis
    by (simp add: example_gen_def)
qed

end
